theory Spec2Isabelle
  imports Main "HOL-Library.Word"
begin

section \<open>The distribution optimizer (solver/src/dpSolver.ts)\<close>

subsection \<open>JavaScript values met by the solver\<close>

text \<open>
  The solver computes with JavaScript numbers. The quote matrix holds finite numbers, which
  are modelled as unbounded integers (exact for integral quotes below \<open>2^53\<close>); the other
  values the code can produce are \<open>-Infinity\<close> (written into the tables at
  initialisation), \<open>NaN\<close> (a sum with \<open>undefined\<close>) and \<open>undefined\<close> (a read past
  the end of an array).
\<close>

datatype jsval = Num int | NegInf | NaN | Undef

text \<open>The operator \<open>+\<close> on these values: \<open>undefined\<close> converts to \<open>NaN\<close>.\<close>

fun js_add :: "jsval \<Rightarrow> jsval \<Rightarrow> jsval" where
  "js_add (Num a) (Num b) = Num (a + b)"
| "js_add (Num a) NegInf = NegInf"
| "js_add NegInf (Num b) = NegInf"
| "js_add NegInf NegInf = NegInf"
| "js_add _ _ = NaN"

text \<open>The operator \<open>>\<close>: false as soon as one side is \<open>NaN\<close> or \<open>undefined\<close>.\<close>

fun js_gt :: "jsval \<Rightarrow> jsval \<Rightarrow> bool" where
  "js_gt (Num a) (Num b) = (b < a)"
| "js_gt (Num a) NegInf = True"
| "js_gt _ _ = False"

text \<open>
  \<open>amounts[p][s]\<close>: a read past the end of a row is \<open>undefined\<close>. The code only reads
  rows \<open>p < amounts.length\<close>.
\<close>

definition row_get :: "int list \<Rightarrow> nat \<Rightarrow> jsval" where
  "row_get r s = (if s < length r then Num (r ! s) else Undef)"

definition amt :: "int list list \<Rightarrow> nat \<Rightarrow> nat \<Rightarrow> jsval" where
  "amt amounts p s = (if p < length amounts then row_get (amounts ! p) s else Undef)"

subsection \<open>The two tables\<close>

text \<open>
  \<open>answers\<close> and \<open>parents\<close> are arrays of arrays, mutated in place; they are modelled
  as stores from the two indices to the value held there.
\<close>

record tables =
  answers :: "nat \<Rightarrow> nat \<Rightarrow> jsval"
  parents :: "nat \<Rightarrow> nat \<Rightarrow> nat"

definition set_answer :: "nat \<Rightarrow> nat \<Rightarrow> jsval \<Rightarrow> tables \<Rightarrow> tables" where
  "set_answer p s v t = t\<lparr>answers := (answers t)(p := (answers t p)(s := v))\<rparr>"

definition set_parent :: "nat \<Rightarrow> nat \<Rightarrow> nat \<Rightarrow> tables \<Rightarrow> tables" where
  "set_parent p s v t = t\<lparr>parents := (parents t)(p := (parents t p)(s := v))\<rparr>"

text \<open>Lines 11-16: every row of both tables is \<open>new Array(parts + 1).fill(0)\<close>.\<close>

definition alloc_tables :: "nat \<Rightarrow> nat \<Rightarrow> tables" where
  "alloc_tables pools parts =
     \<lparr>answers = (\<lambda>p s. if p < pools \<and> s \<le> parts then Num 0 else Undef),
      parents = (\<lambda>p s. 0)\<rparr>"

text \<open>Lines 17-23: the base case, one column \<open>s\<close> at a time.\<close>

definition init_column :: "int list list \<Rightarrow> nat \<Rightarrow> nat \<Rightarrow> tables \<Rightarrow> tables" where
  "init_column amounts pools s t =
     set_parent 0 s 0
       (fold (\<lambda>p. set_answer p s NegInf) [1..<pools]
          (set_answer 0 s (amt amounts 0 s) t))"

definition init_tables :: "int list list \<Rightarrow> nat \<Rightarrow> nat \<Rightarrow> tables \<Rightarrow> tables" where
  "init_tables amounts pools parts t = fold (init_column amounts pools) [0..<Suc parts] t"

text \<open>
  Lines 31-42: one turn of the \<open>curPart\<close> loop. The candidate is built from the raw
  rows \<open>amounts[p]\<close> and \<open>amounts[p - 1]\<close> and is compared with \<open>amounts[p - 1][s]\<close>.
\<close>

definition try_part :: "int list list \<Rightarrow> nat \<Rightarrow> nat \<Rightarrow> nat \<Rightarrow> tables \<Rightarrow> tables" where
  "try_part amounts p s curPart t =
     (let preParts = s - curPart;
          candidate = js_add (amt amounts p curPart) (amt amounts (p - 1) preParts)
      in if js_gt candidate (amt amounts (p - 1) s)
         then set_parent p s preParts (set_answer p s candidate t)
         else t)"

text \<open>Lines 26-43: the cell \<open>(p, s)\<close>.\<close>

definition fill_cell :: "int list list \<Rightarrow> nat \<Rightarrow> nat \<Rightarrow> tables \<Rightarrow> tables" where
  "fill_cell amounts p s t =
     fold (try_part amounts p s) [1..<Suc s]
       (set_parent p s s (set_answer p s (answers t (p - 1) s) t))"

definition fill_row :: "int list list \<Rightarrow> nat \<Rightarrow> nat \<Rightarrow> tables \<Rightarrow> tables" where
  "fill_row amounts parts p t = fold (fill_cell amounts p) [0..<Suc parts] t"

text \<open>Lines 25-44: the rows \<open>p = 1, ..., pools - 1\<close>.\<close>

definition fill_tables :: "int list list \<Rightarrow> nat \<Rightarrow> nat \<Rightarrow> tables \<Rightarrow> tables" where
  "fill_tables amounts pools parts t = fold (fill_row amounts parts) [1..<pools] t"

text \<open>
  The tables as they stand after line 44, with \<open>parts = amounts[0].length\<close> as on line 9.
\<close>

definition dp_tables :: "int list list \<Rightarrow> tables" where
  "dp_tables amounts =
     (let pools = length amounts; parts = length (hd amounts)
      in fill_tables amounts pools parts
           (init_tables amounts pools parts (alloc_tables pools parts)))"

subsection \<open>Reading the distribution back\<close>

text \<open>
  Lines 50-54: \<open>for (p = pools - 1; p >= 0 && partsLeft > 0; p--)\<close>. The first argument
  counts the venues not yet visited, so that \<open>Suc p\<close> stands for the loop variable \<open>p\<close>
  and \<open>0\<close> for the exit at \<open>p = -1\<close>.
\<close>

fun backtrack :: "(nat \<Rightarrow> nat \<Rightarrow> nat) \<Rightarrow> nat \<Rightarrow> nat \<Rightarrow> int list \<Rightarrow> int list" where
  "backtrack par 0 partsLeft dist = dist"
| "backtrack par (Suc p) partsLeft dist =
     (if 0 < partsLeft
      then backtrack par p (par p partsLeft)
             (dist[p := int partsLeft - int (par p partsLeft)])
      else dist)"

record solution =
  totalAmountOut :: jsval
  distribution :: "int list"

datatype solver_error = NoPoolsPassedIn

text \<open>
  The whole function. \<open>!amounts[0]\<close> holds exactly when the matrix has no row (an array,
  even an empty one, is truthy). Line 48 replaces row 0 of \<open>answers\<close> by \<open>amounts[0]\<close>
  itself before the result is read.
\<close>

definition findBestDistribution :: "int list list \<Rightarrow> solver_error + solution" where
  "findBestDistribution amounts =
     (case amounts of
        [] \<Rightarrow> Inl NoPoolsPassedIn
      | row0 # _ \<Rightarrow>
          (let pools = length amounts;
               parts = length row0;
               t = dp_tables amounts;
               answers' = (answers t)(0 := row_get row0);
               dist = backtrack (parents t) pools parts (replicate pools 0)
           in Inr \<lparr>totalAmountOut = answers' (pools - 1) parts, distribution = dist\<rparr>))"

subsection \<open>The sibling solver with an explicit part count\<close>

text \<open>
  The repository holds a second \<open>findBestDistribution(s, amounts)\<close>, which takes the
  number of parts \<open>s\<close> as an argument, builds each candidate from the table row
  \<open>answer[i - 1]\<close> and compares it with the running best \<open>answer[i][j]\<close>. Its tables
  start as \<open>new Array(s + 1)\<close>, all holes.
\<close>

definition VERY_NEGATIVE_VALUE :: int where
  "VERY_NEGATIVE_VALUE = - (10 ^ 72)"

definition ref_init_column :: "int list list \<Rightarrow> nat \<Rightarrow> nat \<Rightarrow> tables \<Rightarrow> tables" where
  "ref_init_column amounts n j t =
     set_parent 0 j 0
       (fold (\<lambda>i. set_answer i j (Num VERY_NEGATIVE_VALUE)) [1..<n]
          (set_answer 0 j (amt amounts 0 j) t))"

definition ref_try_part :: "int list list \<Rightarrow> nat \<Rightarrow> nat \<Rightarrow> nat \<Rightarrow> tables \<Rightarrow> tables" where
  "ref_try_part amounts i j k t =
     (let candidate = js_add (answers t (i - 1) (j - k)) (amt amounts i k)
      in if js_gt candidate (answers t i j)
         then set_parent i j (j - k) (set_answer i j candidate t)
         else t)"

definition ref_fill_cell :: "int list list \<Rightarrow> nat \<Rightarrow> nat \<Rightarrow> tables \<Rightarrow> tables" where
  "ref_fill_cell amounts i j t =
     fold (ref_try_part amounts i j) [1..<Suc j]
       (set_parent i j j (set_answer i j (answers t (i - 1) j) t))"

definition ref_tables :: "nat \<Rightarrow> int list list \<Rightarrow> tables" where
  "ref_tables s amounts =
     (let n = length amounts
      in fold (\<lambda>i. fold (ref_fill_cell amounts i) [0..<Suc s]) [1..<n]
           (fold (ref_init_column amounts n) [0..<Suc s]
              \<lparr>answers = (\<lambda>i j. Undef), parents = (\<lambda>i j. 0)\<rparr>))"

text \<open>
  With no venue at all the first write \<open>answer[0][j] = amounts[0][j]\<close> throws a
  \<open>TypeError\<close>.
\<close>

datatype ref_error = TypeError

definition findBestDistribution_ref :: "nat \<Rightarrow> int list list \<Rightarrow> ref_error + solution" where
  "findBestDistribution_ref s amounts =
     (if amounts = [] then Inl TypeError
      else
        (let n = length amounts;
             t = ref_tables s amounts;
             dist = backtrack (parents t) n s (replicate n 0);
             returnAmount =
               (if answers t (n - 1) s = Num VERY_NEGATIVE_VALUE then Num 0
                else answers t (n - 1) s)
         in Inr \<lparr>totalAmountOut = returnAmount, distribution = dist\<rparr>))"

subsection \<open>What the specification asks for: the best integer split\<close>

text \<open>
  All ways to give \<open>n\<close> parts to \<open>K\<close> venues, the first entry sweeping upwards from
  \<open>0\<close>, and the total output of one such split read off the quote matrix.
\<close>

fun splits :: "nat \<Rightarrow> nat \<Rightarrow> nat list list" where
  "splits 0 n = (if n = 0 then [[]] else [])"
| "splits (Suc K) n = concat (map (\<lambda>k. map ((#) k) (splits K (n - k))) [0..<Suc n])"

fun split_value :: "int list list \<Rightarrow> nat list \<Rightarrow> jsval" where
  "split_value (row # rows) (k # ks) = js_add (row_get row k) (split_value rows ks)"
| "split_value _ _ = Num 0"

definition best_split_total :: "int list list \<Rightarrow> nat \<Rightarrow> jsval" where
  "best_split_total amounts parts =
     fold (\<lambda>ks best. if js_gt (split_value amounts ks) best then split_value amounts ks else best)
       (splits (length amounts) parts) NegInf"

section \<open>The settlement engine (contracts/UniswapV3DexRouter.sol)\<close>

subsection \<open>Values, errors and structs\<close>

text \<open>
  An \<open>int256\<close> is a 256-bit word read in two's complement (\<open>sint\<close>, \<open><s\<close>); an explicit
  conversion between \<open>uint256\<close> and \<open>int256\<close> keeps the bits.
\<close>

type_synonym address = "160 word"
type_synonym uint24 = "24 word"
type_synonym uint256 = "256 word"
type_synonym int256 = "256 word"
type_synonym bytes = "8 word list"

text \<open>
  The ways a call can revert: the contract's three custom errors, a failed \<open>require\<close>
  with its message, a panic of checked arithmetic, and a revert raised by the code of
  another contract (a token or a pool), with its data.
\<close>

datatype evm_error =
    DeadlinePassed uint256
  | InvalidPool address
  | TransferTokenInFailed address address uint256
  | Error string
  | Panic nat
  | Reverted bytes

record Route =
  pair :: address
  fee :: uint24
  tokenIn :: address
  tokenOut :: address
  amountIn :: uint256

record SwapCallbackData =
  token0 :: address
  token1 :: address
  poolFee :: uint24

subsection \<open>The chain around the router\<close>

text \<open>
  What the contract takes from its surroundings: the hash function, its immutable factory
  address, its own address, the block's timestamp, and the two kinds of external contract it
  calls. \<open>transferFrom token caller from to value\<close> is the token's ERC-20 method as called
  by \<open>caller\<close>: it reverts, or returns its flag and the ledger it leaves.
  \<open>venue_swap pool recipient zeroForOne amountSpecified sqrtPriceLimitX96\<close> is the pool's own
  part of a swap: it reverts, or fixes the two signed amounts and delivers the output to the
  recipient. The ledger \<open>'l\<close> is whatever the tokens keep.
\<close>

record 'l chain =
  keccak256 :: "bytes \<Rightarrow> uint256"
  I_FACTORY :: address
  this :: address
  block_timestamp :: uint256
  transferFrom :: "address \<Rightarrow> address \<Rightarrow> address \<Rightarrow> address \<Rightarrow> uint256 \<Rightarrow> 'l
                     \<Rightarrow> evm_error + bool \<times> 'l"
  venue_swap :: "address \<Rightarrow> address \<Rightarrow> bool \<Rightarrow> int256 \<Rightarrow> uint256 \<Rightarrow> 'l
                     \<Rightarrow> evm_error + (int256 \<times> int256) \<times> 'l"

text \<open>
  The state a call can change: the tokens' ledger and the router's transient storage slot
  \<open>PAYER_T_SLOT\<close>. The address \<open>0\<close> in the slot means that no payer is bound.
\<close>

record 'l world =
  ledger :: 'l
  payer_slot :: address

text \<open>
  A call that reverts leaves the state as it was before the call, transient storage
  included; a call that returns leaves the state it reached.
\<close>

definition after_call :: "'l world \<Rightarrow> evm_error + 'a \<times> 'l world \<Rightarrow> 'l world" where
  "after_call w res = (case res of Inl e \<Rightarrow> w | Inr (v, w') \<Rightarrow> w')"

text \<open>Transient storage is discarded when the transaction ends.\<close>

definition end_of_transaction :: "'l world \<Rightarrow> 'l world" where
  "end_of_transaction w = w\<lparr>payer_slot := 0\<rparr>"

subsection \<open>computePoolAddress\<close>

definition POOL_INIT_CODE_HASH :: uint256 where
  "POOL_INIT_CODE_HASH = 0xe34f199b19b2b4f47f68442619d555527d244f78a3297ea89325f843f87b8b54"

text \<open>The \<open>n\<close> low bytes of a word, most significant first.\<close>

definition be_bytes :: "nat \<Rightarrow> 'a::len word \<Rightarrow> bytes" where
  "be_bytes n w = map (\<lambda>i. ucast (drop_bit (8 * i) w)) (rev [0..<n])"

text \<open>
  \<open>abi.encode\<close> pads each of the three values to 32 bytes; \<open>abi.encodePacked\<close> joins the
  byte \<open>ff\<close>, the 20 bytes of the factory and the two 32-byte hashes. The address is the low
  160 bits of the second hash.
\<close>

definition computePoolAddress :: "'l chain \<Rightarrow> address \<Rightarrow> address \<Rightarrow> uint24 \<Rightarrow> evm_error + address" where
  "computePoolAddress env tok0 tok1 fee' =
     (if tok0 < tok1
      then
        (let salt = keccak256 env (be_bytes 32 tok0 @ be_bytes 32 tok1 @ be_bytes 32 fee')
         in Inr (ucast (keccak256 env
                   ([0xff] @ be_bytes 20 (I_FACTORY env) @ be_bytes 32 salt
                      @ be_bytes 32 POOL_INIT_CODE_HASH))))
      else Inl (Error ''DexRouter: token0 must be < token1''))"

subsection \<open>uniswapV3SwapCallback\<close>

text \<open>
  Lines 260-272: the transfer of the owed token from the payer to the pool, and the custom
  error when the token returns \<open>false\<close>.
\<close>

definition pay :: "'l chain \<Rightarrow> address \<Rightarrow> address \<Rightarrow> address \<Rightarrow> uint256 \<Rightarrow> 'l world
                     \<Rightarrow> evm_error + 'l world" where
  "pay env token payer pool amountToPay w =
     (case transferFrom env token (this env) payer pool amountToPay (ledger w) of
        Inl e \<Rightarrow> Inl e
      | Inr (ok, l') \<Rightarrow>
          if ok then Inr (w\<lparr>ledger := l'\<rparr>)
          else Inl (TransferTokenInFailed token payer amountToPay))"

text \<open>
  The callback, called by \<open>sender\<close> with the decoded \<open>SwapCallbackData\<close>. When neither
  amount is positive, no branch is taken and the call returns.
\<close>

definition uniswapV3SwapCallback ::
    "'l chain \<Rightarrow> address \<Rightarrow> int256 \<Rightarrow> int256 \<Rightarrow> SwapCallbackData \<Rightarrow> 'l world \<Rightarrow> evm_error + 'l world" where
  "uniswapV3SwapCallback env sender amount0Delta amount1Delta callbackData w =
     (let pool = sender in
      case computePoolAddress env (token0 callbackData) (token1 callbackData) (poolFee callbackData) of
        Inl e \<Rightarrow> Inl e
      | Inr expectedPool \<Rightarrow>
          if pool \<noteq> expectedPool then Inl (Error ''DexRouter: invalid caller'')
          else
            (let payer = payer_slot w in
             if payer = 0 then Inl (Error ''DexRouter: no payer registered'')
             else if 0 <s amount0Delta then pay env (token0 callbackData) payer pool amount0Delta w
             else if 0 <s amount1Delta then pay env (token1 callbackData) payer pool amount1Delta w
             else Inr w))"

subsection \<open>The pool's swap\<close>

text \<open>
  Modelled from the spec: the venue's swap primitive, the method \<open>swap\<close> of a Uniswap V3
  pool, which is an external contract and not part of this repository. As section 4.3 of the
  specification has it, the venue fixes the amounts and delivers (\<open>venue_swap\<close>), then calls
  back into the router, synchronously and once, for the payment; a revert of the callback is
  a revert of the swap; otherwise the swap returns the two amounts.
\<close>

definition IUniswapV3Pool_swap ::
    "'l chain \<Rightarrow> address \<Rightarrow> address \<Rightarrow> bool \<Rightarrow> int256 \<Rightarrow> uint256 \<Rightarrow> SwapCallbackData \<Rightarrow> 'l world
       \<Rightarrow> evm_error + (int256 \<times> int256) \<times> 'l world" where
  "IUniswapV3Pool_swap env pool recipient zeroForOne amountSpecified sqrtPriceLimitX96 callbackData w =
     (case venue_swap env pool recipient zeroForOne amountSpecified sqrtPriceLimitX96 (ledger w) of
        Inl e \<Rightarrow> Inl e
      | Inr ((amount0, amount1), l') \<Rightarrow>
          (case uniswapV3SwapCallback env pool amount0 amount1 callbackData (w\<lparr>ledger := l'\<rparr>) of
             Inl e \<Rightarrow> Inl e
           | Inr w' \<Rightarrow> Inr ((amount0, amount1), w')))"

subsection \<open>One leg: \_swapByUniswapV3\<close>

text \<open>
  The negation \<open>-amount\<close> of an \<open>int256\<close> is checked: it panics (code \<open>0x11\<close>) on the
  least value. The conversion of the result to \<open>uint256\<close> keeps the bits.
\<close>

definition checked_neg :: "int256 \<Rightarrow> evm_error + uint256" where
  "checked_neg x = (if sint x = - (2 ^ 255) then Inl (Panic 0x11) else Inr (- x))"

definition swapByUniswapV3 :: "'l chain \<Rightarrow> address \<Rightarrow> Route \<Rightarrow> 'l world \<Rightarrow> evm_error + uint256 \<times> 'l world" where
  "swapByUniswapV3 env sender r w =
     (if tokenIn r = tokenOut r then Inl (Error ''DexRouter: tokenIn == tokenOut'')
      else
        (let zeroForOne = tokenIn r < tokenOut r;
             tok0 = (if zeroForOne then tokenIn r else tokenOut r);
             tok1 = (if zeroForOne then tokenOut r else tokenIn r)
         in case computePoolAddress env tok0 tok1 (fee r) of
              Inl e \<Rightarrow> Inl e
            | Inr expectedPool \<Rightarrow>
                if pair r \<noteq> expectedPool then Inl (Error ''DexRouter: invalid pool address'')
                else
                  (let callbackData = \<lparr>token0 = tok0, token1 = tok1, poolFee = fee r\<rparr>
                   in case IUniswapV3Pool_swap env (pair r) sender zeroForOne (amountIn r) 0 callbackData w of
                        Inl e \<Rightarrow> Inl e
                      | Inr ((amount0, amount1), w') \<Rightarrow>
                          (case checked_neg (if zeroForOne then amount1 else amount0) of
                             Inl e \<Rightarrow> Inl e
                           | Inr amountOut \<Rightarrow> Inr (amountOut, w')))))"

subsection \<open>aggregateSwap\<close>

text \<open>
  Lines 144-150: the loop over the routes; the addition is unchecked and wraps around.
\<close>

fun swap_routes :: "'l chain \<Rightarrow> address \<Rightarrow> Route list \<Rightarrow> uint256 \<Rightarrow> 'l world \<Rightarrow> evm_error + uint256 \<times> 'l world" where
  "swap_routes env sender [] totalAmountOut' w = Inr (totalAmountOut', w)"
| "swap_routes env sender (r # rs) totalAmountOut' w =
     (case swapByUniswapV3 env sender r w of
        Inl e \<Rightarrow> Inl e
      | Inr (amountOut, w') \<Rightarrow> swap_routes env sender rs (totalAmountOut' + amountOut) w')"

text \<open>
  The entry point, called by \<open>sender\<close>. The function declares no return value: what it hands
  back to its caller is the empty list of values. The slot is written once, at the start; no
  other line of the contract writes it.
\<close>

definition aggregateSwap ::
    "'l chain \<Rightarrow> address \<Rightarrow> Route list \<Rightarrow> uint256 \<Rightarrow> uint256 \<Rightarrow> 'l world \<Rightarrow> evm_error + uint256 list \<times> 'l world" where
  "aggregateSwap env sender routes minAmountOut deadline w =
     (if deadline < block_timestamp env then Inl (DeadlinePassed deadline)
      else
        (let payer = sender in
         case swap_routes env sender routes 0 (w\<lparr>payer_slot := payer\<rparr>) of
           Inl e \<Rightarrow> Inl e
         | Inr (totalAmountOut', w') \<Rightarrow>
             if minAmountOut \<le> totalAmountOut' then Inr ([], w')
             else Inl (Error ''DexRouter: total amount out is less than min amount out'')))"

subsection \<open>A small chain for concrete runs\<close>

text \<open>
  Every hash is \<open>7\<close>, so that every pool sits at the address \<open>7\<close>; the ledger is the
  payer's remaining allowance, and a token returns \<open>false\<close> when asked for more; a pool
  pays out as much as it takes in.
\<close>

definition demo_chain :: "nat chain" where
  "demo_chain =
     \<lparr>keccak256 = (\<lambda>bs. 7), I_FACTORY = 1, this = 9, block_timestamp = 100,
      transferFrom = (\<lambda>token caller from to v l.
         if unat v \<le> l then Inr (True, l - unat v) else Inr (False, l)),
      venue_swap = (\<lambda>pool recipient zeroForOne a lim l.
         Inr (if zeroForOne then (a, - a) else (- a, a), l))\<rparr>"

definition demo_leg :: "uint256 \<Rightarrow> Route" where
  "demo_leg a = \<lparr>pair = 7, fee = 500, tokenIn = 1, tokenOut = 2, amountIn = a\<rparr>"

text \<open>The callback data that a leg hands to its pool (lines 178-199).\<close>

definition leg_zeroForOne :: "Route \<Rightarrow> bool" where
  "leg_zeroForOne r = (tokenIn r < tokenOut r)"

definition leg_callbackData :: "Route \<Rightarrow> SwapCallbackData" where
  "leg_callbackData r =
     (if leg_zeroForOne r
      then \<lparr>token0 = tokenIn r, token1 = tokenOut r, poolFee = fee r\<rparr>
      else \<lparr>token0 = tokenOut r, token1 = tokenIn r, poolFee = fee r\<rparr>)"

section \<open>Properties of the distribution optimizer\<close>

subsection \<open>What the loops write\<close>

lemma answers_set_answer [simp]:
  "answers (set_answer p s v t) = (answers t)(p := (answers t p)(s := v))"
  "parents (set_answer p s v t) = parents t"
  by (simp_all add: set_answer_def)

lemma parents_set_parent [simp]:
  "parents (set_parent p s v t) = (parents t)(p := (parents t p)(s := v))"
  "answers (set_parent p s v t) = answers t"
  by (simp_all add: set_parent_def)

lemma js_gt_Undef [simp]: "js_gt v Undef = False"
  by (cases v) simp_all

lemma try_part_frame:
  "p' \<noteq> p \<Longrightarrow> answers (try_part amounts p s c t) p' = answers t p'"
  "p' \<noteq> p \<Longrightarrow> parents (try_part amounts p s c t) p' = parents t p'"
  by (simp_all add: try_part_def Let_def)

lemma try_part_blocked:
  "amt amounts (p - 1) s = Undef \<Longrightarrow> try_part amounts p s c t = t"
  by (simp add: try_part_def Let_def)

lemma fold_try_part_frame:
  "p' \<noteq> p \<Longrightarrow> answers (fold (try_part amounts p s) cs t) p' = answers t p'"
  "p' \<noteq> p \<Longrightarrow> parents (fold (try_part amounts p s) cs t) p' = parents t p'"
  by (induction cs arbitrary: t) (simp_all add: try_part_frame)

lemma fold_try_part_blocked:
  "amt amounts (p - 1) s = Undef \<Longrightarrow> fold (try_part amounts p s) cs t = t"
  by (induction cs arbitrary: t) (simp_all add: try_part_blocked)

lemma fill_cell_frame:
  "p' \<noteq> p \<Longrightarrow> answers (fill_cell amounts p s t) p' = answers t p'"
  "p' \<noteq> p \<Longrightarrow> parents (fill_cell amounts p s t) p' = parents t p'"
  by (simp_all add: fill_cell_def fold_try_part_frame)

lemma fill_cell_blocked:
  "amt amounts (p - 1) s = Undef \<Longrightarrow>
   fill_cell amounts p s t = set_parent p s s (set_answer p s (answers t (p - 1) s) t)"
  by (simp add: fill_cell_def fold_try_part_blocked)

lemma fold_fill_cell_frame:
  "p' \<noteq> p \<Longrightarrow> answers (fold (fill_cell amounts p) ss t) p' = answers t p'"
  "p' \<noteq> p \<Longrightarrow> parents (fold (fill_cell amounts p) ss t) p' = parents t p'"
  by (induction ss arbitrary: t) (simp_all add: fill_cell_frame)

lemma fill_row_frame:
  "p' \<noteq> p \<Longrightarrow> answers (fill_row amounts parts p t) p' = answers t p'"
  "p' \<noteq> p \<Longrightarrow> parents (fill_row amounts parts p t) p' = parents t p'"
  unfolding fill_row_def by (rule fold_fill_cell_frame, assumption)+

lemma fill_row_last_column:
  assumes "amt amounts (p - 1) parts = Undef" and "0 < p"
  shows "answers (fill_row amounts parts p t) p parts = answers t (p - 1) parts"
    and "parents (fill_row amounts parts p t) p parts = parts"
proof -
  let ?u = "fold (fill_cell amounts p) [0..<parts] t"
  have eq: "fill_row amounts parts p t = fill_cell amounts p parts ?u"
    by (simp add: fill_row_def)
  have "p - 1 \<noteq> p" using assms(2) by simp
  then have "answers ?u (p - 1) = answers t (p - 1)"
    by (rule fold_fill_cell_frame)
  then show "answers (fill_row amounts parts p t) p parts = answers t (p - 1) parts"
    by (simp add: eq fill_cell_blocked [OF assms(1)])
  show "parents (fill_row amounts parts p t) p parts = parts"
    by (simp add: eq fill_cell_blocked [OF assms(1)])
qed

lemma fold_fill_row_frame:
  "p' \<notin> set ps \<Longrightarrow> answers (fold (fill_row amounts parts) ps t) p' = answers t p'"
  "p' \<notin> set ps \<Longrightarrow> parents (fold (fill_row amounts parts) ps t) p' = parents t p'"
  by (induction ps arbitrary: t) (simp_all add: fill_row_frame)

lemma fill_tables_last_column:
  assumes "\<forall>q. Suc q < n \<longrightarrow> amt amounts q parts = Undef"
  shows "\<forall>p. 0 < p \<and> p < n \<longrightarrow>
           answers (fold (fill_row amounts parts) [1..<n] t) p parts = answers t 0 parts \<and>
           parents (fold (fill_row amounts parts) [1..<n] t) p parts = parts"
  using assms
proof (induction n)
  case 0
  then show ?case by simp
next
  case (Suc n)
  show ?case
  proof (cases "n = 0")
    case True
    then show ?thesis by simp
  next
    case False
    let ?u = "fold (fill_row amounts parts) [1..<n] t"
    have eq: "fold (fill_row amounts parts) [1..<Suc n] t = fill_row amounts parts n ?u"
      using False by simp
    have blocked: "amt amounts (n - 1) parts = Undef"
      using Suc.prems False by simp
    have IH: "\<forall>p. 0 < p \<and> p < n \<longrightarrow> answers ?u p parts = answers t 0 parts \<and> parents ?u p parts = parts"
      using Suc.IH Suc.prems by simp
    have prev: "answers ?u (n - 1) parts = answers t 0 parts"
    proof (cases "n = 1")
      case True
      then show ?thesis by simp
    next
      case False
      with \<open>n \<noteq> 0\<close> IH show ?thesis by simp
    qed
    show ?thesis
    proof (intro allI impI)
      fix p assume p: "0 < p \<and> p < Suc n"
      show "answers (fold (fill_row amounts parts) [1..<Suc n] t) p parts = answers t 0 parts \<and>
            parents (fold (fill_row amounts parts) [1..<Suc n] t) p parts = parts"
      proof (cases "p = n")
        case True
        then show ?thesis
          using fill_row_last_column [OF blocked, of ?u] False prev by (simp add: eq)
      next
        case False
        then have "p < n" using p by simp
        then show ?thesis using IH p False by (simp add: eq fill_row_frame)
      qed
    qed
  qed
qed

lemma fold_set_answer_frame:
  "p' \<notin> set ps \<Longrightarrow> answers (fold (\<lambda>p. set_answer p s v) ps t) p' = answers t p'"
  "parents (fold (\<lambda>p. set_answer p s v) ps t) = parents t"
  by (induction ps arbitrary: t) simp_all

lemma init_column_row0:
  "answers (init_column amounts pools s t) 0 = (answers t 0)(s := amt amounts 0 s)"
  by (simp add: init_column_def fold_set_answer_frame)

lemma init_column_parents:
  "parents t = (\<lambda>p s. 0) \<Longrightarrow> parents (init_column amounts pools s t) = (\<lambda>p s. 0)"
  by (auto simp add: init_column_def fold_set_answer_frame fun_eq_iff)

lemma fold_init_column_parents:
  "parents t = (\<lambda>p s. 0) \<Longrightarrow> parents (fold (init_column amounts pools) ss t) = (\<lambda>p s. 0)"
  by (induction ss arbitrary: t) (simp_all add: init_column_parents)

lemma init_tables_parents:
  "parents (init_tables amounts pools parts (alloc_tables pools parts)) = (\<lambda>p s. 0)"
  unfolding init_tables_def
  by (rule fold_init_column_parents) (simp add: alloc_tables_def)

lemma init_tables_last_column:
  "answers (init_tables amounts pools parts t) 0 parts = amt amounts 0 parts"
  by (simp add: init_tables_def init_column_row0)

lemma dp_tables_last_column:
  assumes "\<forall>q. Suc q < length amounts \<longrightarrow> amt amounts q (length (hd amounts)) = Undef"
  shows "0 < p \<Longrightarrow> p < length amounts \<Longrightarrow>
           answers (dp_tables amounts) p (length (hd amounts)) = amt amounts 0 (length (hd amounts))"
    and "0 < p \<Longrightarrow> p < length amounts \<Longrightarrow>
           parents (dp_tables amounts) p (length (hd amounts)) = length (hd amounts)"
    and "parents (dp_tables amounts) 0 s = 0"
proof -
  let ?L = "length (hd amounts)" and ?n = "length amounts"
  let ?t = "init_tables amounts ?n ?L (alloc_tables ?n ?L)"
  have dp: "dp_tables amounts = fold (fill_row amounts ?L) [1..<?n] ?t"
    by (simp add: dp_tables_def fill_tables_def Let_def)
  note col = fill_tables_last_column [OF assms, of ?t, rule_format]
  show "0 < p \<Longrightarrow> p < ?n \<Longrightarrow> answers (dp_tables amounts) p ?L = amt amounts 0 ?L"
    using col [of p] by (simp add: dp init_tables_last_column)
  show "0 < p \<Longrightarrow> p < ?n \<Longrightarrow> parents (dp_tables amounts) p ?L = ?L"
    using col [of p] by (simp add: dp)
  have "parents (dp_tables amounts) 0 = parents ?t 0"
    unfolding dp by (rule fold_fill_row_frame) simp
  then show "parents (dp_tables amounts) 0 s = 0"
    by (simp add: init_tables_parents)
qed

lemma backtrack_no_parts: "backtrack par n 0 dist = dist"
  by (cases n) simp_all

lemma backtrack_all_to_first:
  assumes "\<forall>p. 0 < p \<and> p < n \<longrightarrow> par p L = L" and "par 0 L = 0" and "0 < n"
  shows "backtrack par n L (replicate k 0) = (replicate k 0)[0 := int L]"
  using assms
proof (induction n)
  case 0
  then show ?case by simp
next
  case (Suc n)
  show ?case
  proof (cases "L = 0")
    case True
    then show ?thesis by (cases k) simp_all
  next
    case L: False
    show ?thesis
    proof (cases "n = 0")
      case True
      then show ?thesis using L Suc.prems by simp
    next
      case False
      have same: "(replicate k (0::int))[n := 0] = replicate k 0"
        by (cases "n < k") (auto simp add: list_eq_iff_nth_eq nth_list_update)
      have "backtrack par (Suc n) L (replicate k 0) = backtrack par n L (replicate k 0)"
        using L Suc.prems False by (simp add: same)
      also have "\<dots> = (replicate k 0)[0 := int L]"
        using Suc.IH Suc.prems False by simp
      finally show ?thesis .
    qed
  qed
qed

lemma amt_past_row:
  "p < length amounts \<Longrightarrow> length (amounts ! p) \<le> s \<Longrightarrow> amt amounts p s = Undef"
  by (simp add: amt_def row_get_def)

lemma findBestDistribution_short_rows:
  assumes ne: "amounts \<noteq> []"
    and short: "\<forall>q. Suc q < length amounts \<longrightarrow> length (amounts ! q) \<le> length (hd amounts)"
  shows "findBestDistribution amounts =
           Inr \<lparr>totalAmountOut = Undef,
                distribution = (replicate (length amounts) 0)[0 := int (length (hd amounts))]\<rparr>"
proof -
  let ?L = "length (hd amounts)" and ?n = "length amounts"
  obtain row0 rest where am: "amounts = row0 # rest"
    using ne by (cases amounts) auto
  have blocked: "\<forall>q. Suc q < ?n \<longrightarrow> amt amounts q ?L = Undef"
    using short by (simp add: amt_past_row)
  have first: "amt amounts 0 ?L = Undef"
    by (simp add: am amt_def row_get_def)
  have par: "\<forall>p. 0 < p \<and> p < ?n \<longrightarrow> parents (dp_tables amounts) p ?L = ?L"
    using dp_tables_last_column(2) [OF blocked] by simp
  have par0: "parents (dp_tables amounts) 0 ?L = 0"
    by (rule dp_tables_last_column(3) [OF blocked])
  have dist: "backtrack (parents (dp_tables amounts)) ?n ?L (replicate ?n 0)
                = (replicate ?n 0)[0 := int ?L]"
    using par par0
    by (intro backtrack_all_to_first [where par = "parents (dp_tables amounts)"]) (simp_all add: am)
  have total: "((answers (dp_tables amounts))(0 := row_get row0)) (?n - 1) ?L = Undef"
  proof (cases "rest = []")
    case True
    then show ?thesis by (simp add: am row_get_def)
  next
    case False
    then have "0 < ?n - 1" "?n - 1 < ?n" by (simp_all add: am)
    then show ?thesis
      using dp_tables_last_column(1) [OF blocked, of "?n - 1"] first by simp
  qed
  have "findBestDistribution amounts =
          Inr \<lparr>totalAmountOut = ((answers (dp_tables amounts))(0 := row_get row0)) (?n - 1) ?L,
               distribution = backtrack (parents (dp_tables amounts)) ?n ?L (replicate ?n 0)\<rparr>"
    by (simp add: findBestDistribution_def am Let_def)
  then show ?thesis
    by (simp only: dist total)
qed


subsection \<open>The sibling solver and the best split on the example of the repository\<close>

lemma findBestDistribution_ref_example:
  "findBestDistribution_ref 3 [[0, 100, 200, 300], [0, 150, 250, 350], [0, 120, 220, 320]]
     = Inr \<lparr>totalAmountOut = Num 370, distribution = [1, 1, 1]\<rparr>"
  by code_simp

lemma best_split_total_example:
  "best_split_total [[0, 100, 200, 300], [0, 150, 250, 350], [0, 120, 220, 320]] 3 = Num 370"
  by code_simp

subsection \<open>The claims\<close>

text \<open>
  C1. The claim: on every quote matrix with at least one venue, the total returned is the
  maximum, over all integer splits of the parts, of the summed outputs, and the distribution
  returned attains it. The code does not do this. On the matrix \<open>[[0,5,6],[0,4,9]]\<close>, two
  venues and two parts, the best split is worth \<open>9\<close> and the sibling solver returns it with
  \<open>[1,1]\<close>, while \<open>findBestDistribution\<close> returns \<open>undefined\<close> with \<open>[3,0]\<close>: it
  takes the row length \<open>3\<close> for the number of parts and reads one entry past each row.
\<close>

theorem findBestDistribution_misses_best_split:
  "findBestDistribution [[0, 5, 6], [0, 4, 9]]
     = Inr \<lparr>totalAmountOut = Undef, distribution = [3, 0]\<rparr>
   \<and> best_split_total [[0, 5, 6], [0, 4, 9]] 2 = Num 9
   \<and> findBestDistribution_ref 2 [[0, 5, 6], [0, 4, 9]]
       = Inr \<lparr>totalAmountOut = Num 9, distribution = [1, 1]\<rparr>"
  by code_simp

text \<open>
  C3. The claim: on \<open>[[0,100,200,300],[0,150,250,350],[0,120,220,320]]\<close> the function returns
  the total \<open>350\<close> and the distribution \<open>[0,3,0]\<close>. The code returns \<open>undefined\<close> and
  \<open>[4,0,0]\<close>.
\<close>

theorem findBestDistribution_example:
  "findBestDistribution [[0, 100, 200, 300], [0, 150, 250, 350], [0, 120, 220, 320]]
     = Inr \<lparr>totalAmountOut = Undef, distribution = [4, 0, 0]\<rparr>"
  by code_simp

text \<open>
  C4. The claim: when every row has \<open>parts + 1\<close> entries, the distribution has one entry per
  venue, none negative, and the entries sum to \<open>parts\<close>. On two rows of three entries
  (\<open>parts = 2\<close>) the code returns two entries that sum to \<open>3\<close>.
\<close>

theorem findBestDistribution_sum_off_by_one:
  "map_sum id (\<lambda>r. (distribution r, length (distribution r), sum_list (distribution r)))
     (findBestDistribution [[0, 10, 18], [0, 12, 20]])
     = Inr ([3, 0], 2, 3)"
  by code_simp

text \<open>
  C8. The claim: among splits that tie for the best output at a state \<open>(i, s)\<close>, the one met
  first in the sweep, with the lowest \<open>k\<close>, is kept. On \<open>[[0,10,20],[0,15,25]]\<close> at the state
  \<open>(1, 2)\<close> the splits \<open>k = 1\<close> and \<open>k = 2\<close> tie at \<open>25\<close>, above \<open>20\<close> for \<open>k = 0\<close>.
  The code keeps the last of them, \<open>k = 2\<close> (back-pointer \<open>0\<close>); the sibling solver keeps
  \<open>k = 1\<close> (back-pointer \<open>1\<close>).
\<close>

theorem findBestDistribution_keeps_last_tie:
  "js_add (amt [[0, 10, 20], [0, 15, 25]] 1 1) (amt [[0, 10, 20], [0, 15, 25]] 0 1) = Num 25
   \<and> js_add (amt [[0, 10, 20], [0, 15, 25]] 1 2) (amt [[0, 10, 20], [0, 15, 25]] 0 0) = Num 25
   \<and> best_split_total [[0, 10, 20], [0, 15, 25]] 2 = Num 25
   \<and> parents (dp_tables [[0, 10, 20], [0, 15, 25]]) 1 2 = 0
   \<and> parents (ref_tables 2 [[0, 10, 20], [0, 15, 25]]) 1 2 = 1
   \<and> findBestDistribution [[0, 10, 20], [0, 15, 25]]
       = Inr \<lparr>totalAmountOut = Undef, distribution = [3, 0]\<rparr>
   \<and> findBestDistribution_ref 2 [[0, 10, 20], [0, 15, 25]]
       = Inr \<lparr>totalAmountOut = Num 25, distribution = [1, 1]\<rparr>"
  by code_simp

text \<open>
  C9. Appending a venue whose entries are all \<open>0\<close> to a quote matrix with at least one venue
  and rows of one length leaves the total as it was and gives the new venue no part; the
  other entries of the distribution stay as they were.
\<close>

theorem findBestDistribution_zero_venue:
  assumes ne: "amounts \<noteq> []"
    and uni: "\<forall>row \<in> set amounts. length row = length (hd amounts)"
  shows "\<exists>r r'. findBestDistribution amounts = Inr r \<and>
           findBestDistribution (amounts @ [replicate n 0]) = Inr r' \<and>
           totalAmountOut r' = totalAmountOut r \<and>
           distribution r' ! length amounts = 0 \<and>
           distribution r' = distribution r @ [0]"
proof -
  let ?am' = "amounts @ [replicate n 0]"
  have hd': "hd ?am' = hd amounts" using ne by simp
  have s1: "\<forall>q. Suc q < length amounts \<longrightarrow> length (amounts ! q) \<le> length (hd amounts)"
    using uni by simp
  have s2: "\<forall>q. Suc q < length ?am' \<longrightarrow> length (?am' ! q) \<le> length (hd ?am')"
    using uni by (simp add: hd' nth_append)
  have ne': "?am' \<noteq> []" by simp
  have len: "0 < length amounts" using ne by simp
  obtain m where m: "length amounts = Suc m"
    using len by (cases "length amounts") simp_all
  have upd: "(replicate (Suc (length amounts)) (0::int))[0 := int (length (hd amounts))]
             = (replicate (length amounts) 0)[0 := int (length (hd amounts))] @ [0]"
    by (simp add: m replicate_append_same)
  have r: "findBestDistribution amounts =
             Inr \<lparr>totalAmountOut = Undef,
                  distribution = (replicate (length amounts) 0)[0 := int (length (hd amounts))]\<rparr>"
    by (rule findBestDistribution_short_rows [OF ne s1])
  have "findBestDistribution ?am' =
             Inr \<lparr>totalAmountOut = Undef,
                  distribution = (replicate (length ?am') 0)[0 := int (length (hd ?am'))]\<rparr>"
    by (rule findBestDistribution_short_rows [OF ne' s2])
  then have r': "findBestDistribution ?am' =
             Inr \<lparr>totalAmountOut = Undef,
                  distribution = (replicate (length amounts) 0)[0 := int (length (hd amounts))] @ [0]\<rparr>"
    using upd by (simp only: hd' length_append list.size One_nat_def add_Suc_right add_0_right)
  show ?thesis
    unfolding r r' by (simp add: nth_append)
qed

theorem findBestDistribution_zero_venue_witness:
  "\<exists>r r'. findBestDistribution [[0, 100, 200], [0, 150, 250]] = Inr r \<and>
      findBestDistribution ([[0, 100, 200], [0, 150, 250]] @ [replicate 3 0]) = Inr r' \<and>
      totalAmountOut r' = totalAmountOut r \<and>
      distribution r' ! length [[0, 100, 200], [0, 150, 250 :: int]] = 0 \<and>
      distribution r' = distribution r @ [0]"
proof -
  have ne: "[[0, 100, 200], [0, 150, 250 :: int]] \<noteq> []" by simp
  have uni: "\<forall>row \<in> set [[0, 100, 200], [0, 150, 250 :: int]].
               length row = length (hd [[0, 100, 200], [0, 150, 250 :: int]])" by simp
  show ?thesis
    by (rule findBestDistribution_zero_venue [OF ne uni, of 3])
qed

section \<open>Properties of the settlement engine\<close>

subsection \<open>The payer slot and the loop over the routes\<close>

lemmas router_defs =
  aggregateSwap_def swapByUniswapV3_def computePoolAddress_def IUniswapV3Pool_swap_def
  uniswapV3SwapCallback_def pay_def checked_neg_def Let_def word_sless_alt

lemma pay_payer_slot: "pay env token payer pool a w = Inr w' \<Longrightarrow> payer_slot w' = payer_slot w"
  by (auto simp add: pay_def split: sum.splits if_splits)

lemma callback_payer_slot:
  "uniswapV3SwapCallback env sender a0 a1 d w = Inr w' \<Longrightarrow> payer_slot w' = payer_slot w"
  by (auto simp add: uniswapV3SwapCallback_def Let_def dest: pay_payer_slot split: sum.splits if_splits)

lemma pool_swap_payer_slot:
  "IUniswapV3Pool_swap env pool rcp z a lim d w = Inr (res, w') \<Longrightarrow> payer_slot w' = payer_slot w"
  by (auto simp add: IUniswapV3Pool_swap_def dest!: callback_payer_slot split: sum.splits prod.splits)

lemma swapByUniswapV3_payer_slot:
  "swapByUniswapV3 env sender r w = Inr (out, w') \<Longrightarrow> payer_slot w' = payer_slot w"
  by (auto simp add: swapByUniswapV3_def Let_def dest!: pool_swap_payer_slot split: sum.splits prod.splits if_splits)

lemma swap_routes_payer_slot:
  "swap_routes env sender rs tot w = Inr (tot', w') \<Longrightarrow> payer_slot w' = payer_slot w"
proof (induction rs arbitrary: tot w)
  case Nil
  then show ?case by simp
next
  case (Cons r rs)
  then show ?case
    by (auto split: sum.splits dest!: swapByUniswapV3_payer_slot)
qed

lemma swap_routes_append:
  "swap_routes env sender (pre @ rs) tot w =
     (case swap_routes env sender pre tot w of
        Inl e \<Rightarrow> Inl e
      | Inr (tot', w') \<Rightarrow> swap_routes env sender rs tot' w')"
  by (induction pre arbitrary: tot w) (auto split: sum.splits)

lemma leg_callback_failure:
  assumes "tokenIn r \<noteq> tokenOut r"
    and "computePoolAddress env (token0 (leg_callbackData r)) (token1 (leg_callbackData r)) (fee r) = Inr (pair r)"
    and "venue_swap env (pair r) sender (leg_zeroForOne r) (amountIn r) 0 (ledger w) = Inr ((a0, a1), l')"
    and "uniswapV3SwapCallback env (pair r) a0 a1 (leg_callbackData r) (w\<lparr>ledger := l'\<rparr>) = Inl e"
  shows "swapByUniswapV3 env sender r w = Inl e"
  using assms
  by (auto simp add: swapByUniswapV3_def IUniswapV3Pool_swap_def leg_callbackData_def leg_zeroForOne_def Let_def split: if_splits)

lemma aggregateSwap_returns:
  assumes "aggregateSwap env sender routes minAmountOut deadline w = Inr (ret, w')"
  shows "\<exists>total. swap_routes env sender routes 0 (w\<lparr>payer_slot := sender\<rparr>) = Inr (total, w')
                  \<and> minAmountOut \<le> total \<and> ret = []"
  using assms
  by (auto simp add: aggregateSwap_def Let_def split: if_splits sum.splits)

subsection \<open>The claims\<close>

text \<open>
  C2. Let the legs before a leg \<open>r\<close> go through, let \<open>r\<close> pass its checks and its pool
  deliver, and let the payment callback of \<open>r\<close> fail with \<open>TransferTokenInFailed\<close> because
  the token returns \<open>false\<close>. Then the whole call of \<open>aggregateSwap\<close> reverts with that
  same error, whatever legs follow, and the state after the call is the state before it: no
  transfer of any leg remains.
\<close>

theorem aggregateSwap_aborts_on_failed_transfer:
  assumes deadline: "\<not> deadline < block_timestamp env"
    and before: "swap_routes env sender pre 0 (w\<lparr>payer_slot := sender\<rparr>) = Inr (tot, w1)"
    and distinct: "tokenIn r \<noteq> tokenOut r"
    and pool: "computePoolAddress env (token0 (leg_callbackData r)) (token1 (leg_callbackData r)) (fee r) = Inr (pair r)"
    and delivered: "venue_swap env (pair r) sender (leg_zeroForOne r) (amountIn r) 0 (ledger w1) = Inr ((a0, a1), l')"
    and callback: "uniswapV3SwapCallback env (pair r) a0 a1 (leg_callbackData r) (w1\<lparr>ledger := l'\<rparr>)
                     = Inl (TransferTokenInFailed token payer amount)"
  shows "aggregateSwap env sender (pre @ r # post) minAmountOut deadline w
           = Inl (TransferTokenInFailed token payer amount)
         \<and> after_call w (aggregateSwap env sender (pre @ r # post) minAmountOut deadline w) = w"
proof -
  have leg: "swapByUniswapV3 env sender r w1 = Inl (TransferTokenInFailed token payer amount)"
    by (rule leg_callback_failure [OF distinct pool delivered callback])
  have "swap_routes env sender (pre @ r # post) 0 (w\<lparr>payer_slot := sender\<rparr>)
          = Inl (TransferTokenInFailed token payer amount)"
    by (simp add: swap_routes_append before leg)
  then have res: "aggregateSwap env sender (pre @ r # post) minAmountOut deadline w
          = Inl (TransferTokenInFailed token payer amount)"
    using deadline by (simp add: aggregateSwap_def)
  show ?thesis
    by (simp add: res after_call_def)
qed

theorem aggregateSwap_aborts_on_failed_transfer_witness:
  "aggregateSwap demo_chain 5 ([demo_leg 5] @ demo_leg 10 # [demo_leg 1]) 0 100 \<lparr>ledger = 8, payer_slot = 0\<rparr>
           = Inl (TransferTokenInFailed 1 5 10)
   \<and> after_call \<lparr>ledger = 8, payer_slot = 0\<rparr>
        (aggregateSwap demo_chain 5 ([demo_leg 5] @ demo_leg 10 # [demo_leg 1]) 0 100 \<lparr>ledger = 8, payer_slot = 0\<rparr>)
       = \<lparr>ledger = 8, payer_slot = 0\<rparr>"
proof -
  have deadline: "\<not> (100 :: uint256) < block_timestamp demo_chain"
    by (simp add: demo_chain_def)
  have before: "swap_routes demo_chain 5 [demo_leg 5] 0 (\<lparr>ledger = 8, payer_slot = 0\<rparr>\<lparr>payer_slot := 5\<rparr>)
                  = Inr (5, \<lparr>ledger = 3, payer_slot = 5\<rparr>)"
    by (simp add: router_defs demo_chain_def demo_leg_def)
  have distinct: "tokenIn (demo_leg 10) \<noteq> tokenOut (demo_leg 10)"
    by (simp add: demo_leg_def)
  have pool: "computePoolAddress demo_chain (token0 (leg_callbackData (demo_leg 10)))
                (token1 (leg_callbackData (demo_leg 10))) (fee (demo_leg 10)) = Inr (pair (demo_leg 10))"
    by (simp add: computePoolAddress_def demo_chain_def demo_leg_def leg_callbackData_def leg_zeroForOne_def)
  have delivered: "venue_swap demo_chain (pair (demo_leg 10)) 5 (leg_zeroForOne (demo_leg 10))
                     (amountIn (demo_leg 10)) 0 (ledger \<lparr>ledger = 3 :: nat, payer_slot = 5\<rparr>)
                   = Inr ((10, - 10), 3)"
    by (simp add: demo_chain_def demo_leg_def leg_zeroForOne_def)
  have callback: "uniswapV3SwapCallback demo_chain (pair (demo_leg 10)) 10 (- 10)
                     (leg_callbackData (demo_leg 10)) (\<lparr>ledger = 3 :: nat, payer_slot = 5\<rparr>\<lparr>ledger := 3\<rparr>)
                   = Inl (TransferTokenInFailed 1 5 10)"
    by (simp add: router_defs demo_chain_def demo_leg_def leg_callbackData_def leg_zeroForOne_def)
  show ?thesis
    by (rule aggregateSwap_aborts_on_failed_transfer [OF deadline before distinct pool delivered callback])
qed

text \<open>
  C5. When the address computed from the callback data \<open>(token0, token1, poolFee)\<close> is not
  the caller, the callback reverts with the message \<open>DexRouter: invalid caller\<close>, for every
  pair, fee, amounts, state and token behaviour; a revert leaves no transfer behind.
\<close>

theorem callback_rejects_foreign_caller:
  assumes "computePoolAddress env (token0 d) (token1 d) (poolFee d) = Inr expectedPool"
    and "sender \<noteq> expectedPool"
  shows "uniswapV3SwapCallback env sender amount0Delta amount1Delta d w
           = Inl (Error ''DexRouter: invalid caller'')"
  using assms by (simp add: uniswapV3SwapCallback_def)

theorem callback_rejects_foreign_caller_witness:
  "uniswapV3SwapCallback demo_chain 8 5 (- 5) \<lparr>token0 = 1, token1 = 2, poolFee = 500\<rparr>
      \<lparr>ledger = 8, payer_slot = 5\<rparr> = Inl (Error ''DexRouter: invalid caller'')"
proof -
  have a: "computePoolAddress demo_chain (token0 \<lparr>token0 = 1, token1 = 2, poolFee = 500\<rparr>)
             (token1 \<lparr>token0 = 1, token1 = 2, poolFee = 500\<rparr>)
             (poolFee \<lparr>token0 = 1, token1 = 2, poolFee = 500\<rparr>) = Inr 7"
    by (simp add: computePoolAddress_def demo_chain_def)
  have b: "(8 :: address) \<noteq> 7" by simp
  show ?thesis
    by (rule callback_rejects_foreign_caller [OF a b])
qed

text \<open>
  Callback data whose pair is not in order has no computed address: the callback reverts
  inside \<open>computePoolAddress\<close>, with that function's message.
\<close>

lemma callback_unordered_pair:
  "\<not> token0 d < token1 d \<Longrightarrow>
   uniswapV3SwapCallback env sender amount0Delta amount1Delta d w
     = Inl (Error ''DexRouter: token0 must be < token1'')"
  by (simp add: uniswapV3SwapCallback_def computePoolAddress_def)

text \<open>
  C6. The claim: the payer binding is cleared before control returns to the caller, on every
  exit path. It is not, on the path of success: after the call below the slot still holds the
  caller \<open>5\<close>, and a later callback from the pool still draws on that payer's allowance.
\<close>

theorem payer_binding_survives_return:
  "aggregateSwap demo_chain 5 [demo_leg 5] 0 100 \<lparr>ledger = 8, payer_slot = 0\<rparr>
     = Inr ([], \<lparr>ledger = 3, payer_slot = 5\<rparr>)
   \<and> payer_slot (after_call \<lparr>ledger = 8, payer_slot = 0\<rparr>
        (aggregateSwap demo_chain 5 [demo_leg 5] 0 100 \<lparr>ledger = 8, payer_slot = 0\<rparr>)) \<noteq> 0
   \<and> uniswapV3SwapCallback demo_chain 7 2 0 \<lparr>token0 = 1, token1 = 2, poolFee = 500\<rparr>
        \<lparr>ledger = 3, payer_slot = 5\<rparr> = Inr \<lparr>ledger = 1, payer_slot = 5\<rparr>"
  by (simp add: router_defs after_call_def demo_chain_def demo_leg_def)

text \<open>
  C6, as the code has it. The contract writes the slot at the start of \<open>aggregateSwap\<close> and
  never clears it. After a call that returns, the slot holds the caller of that call; after
  a call that reverts, it holds what it held before the call; it is empty once the
  transaction has ended.
\<close>

theorem aggregateSwap_payer_slot_after_call:
  "payer_slot (after_call w (aggregateSwap env sender routes minAmountOut deadline w))
     = (case aggregateSwap env sender routes minAmountOut deadline w of
          Inl e \<Rightarrow> payer_slot w
        | Inr res \<Rightarrow> sender)
   \<and> payer_slot (end_of_transaction
        (after_call w (aggregateSwap env sender routes minAmountOut deadline w))) = 0"
proof (cases "aggregateSwap env sender routes minAmountOut deadline w")
  case (Inl e)
  then show ?thesis
    by (simp add: after_call_def end_of_transaction_def)
next
  case (Inr res)
  obtain ret w' where res: "res = (ret, w')"
    by (cases res)
  obtain total where "swap_routes env sender routes 0 (w\<lparr>payer_slot := sender\<rparr>) = Inr (total, w')"
    using aggregateSwap_returns Inr res by blast
  then have "payer_slot w' = sender"
    using swap_routes_payer_slot by fastforce
  then show ?thesis
    by (simp add: Inr res after_call_def end_of_transaction_def)
qed

text \<open>
  C7. The claim: on success the entry point returns the realized total output to its caller.
  It returns nothing: in the call below the two legs deliver \<open>3\<close> and \<open>4\<close>, the total
  in the loop is \<open>7\<close>, and the caller receives no value.
\<close>

theorem aggregateSwap_returns_no_value:
  "aggregateSwap demo_chain 5 [demo_leg 3, demo_leg 4] 0 100 \<lparr>ledger = 8, payer_slot = 0\<rparr>
     = Inr ([], \<lparr>ledger = 1, payer_slot = 5\<rparr>)
   \<and> swap_routes demo_chain 5 [demo_leg 3, demo_leg 4] 0 \<lparr>ledger = 8, payer_slot = 5\<rparr>
     = Inr (7, \<lparr>ledger = 1, payer_slot = 5\<rparr>)"
  by (simp add: router_defs demo_chain_def demo_leg_def)

text \<open>
  C7, as the code has it. A call of \<open>aggregateSwap\<close> that succeeds returns no value; the
  total of the legs' outputs, added up with wrap-around, has only been compared with
  \<open>minAmountOut\<close>, and is at least that.
\<close>

theorem aggregateSwap_success:
  assumes "aggregateSwap env sender routes minAmountOut deadline w = Inr (ret, w')"
  shows "ret = [] \<and>
         (\<exists>total. swap_routes env sender routes 0 (w\<lparr>payer_slot := sender\<rparr>) = Inr (total, w')
                   \<and> minAmountOut \<le> total)"
  using aggregateSwap_returns [OF assms] by blast

theorem aggregateSwap_success_witness:
  "\<exists>total. swap_routes demo_chain 5 [demo_leg 3, demo_leg 4] 0
              (\<lparr>ledger = 8, payer_slot = 0\<rparr>\<lparr>payer_slot := 5\<rparr>)
              = Inr (total, \<lparr>ledger = 1, payer_slot = 5\<rparr>)
            \<and> 6 \<le> total"
proof -
  have a: "aggregateSwap demo_chain 5 [demo_leg 3, demo_leg 4] 6 100 \<lparr>ledger = 8, payer_slot = 0\<rparr>
             = Inr ([], \<lparr>ledger = 1, payer_slot = 5\<rparr>)"
    by (simp add: router_defs demo_chain_def demo_leg_def)
  show ?thesis
    by (rule aggregateSwap_success [OF a, THEN conjunct2])
qed

text \<open>
  C10. When the caller is the pool computed from the callback data and a payer is bound,
  but neither amount is positive, the callback makes no transfer and returns: the state is
  as it was, and no error is raised.
\<close>

theorem callback_nothing_owed:
  assumes "computePoolAddress env (token0 d) (token1 d) (poolFee d) = Inr sender"
    and "payer_slot w \<noteq> 0"
    and "\<not> 0 <s amount0Delta" and "\<not> 0 <s amount1Delta"
  shows "uniswapV3SwapCallback env sender amount0Delta amount1Delta d w = Inr w"
  using assms by (simp add: uniswapV3SwapCallback_def)

theorem callback_nothing_owed_witness:
  "uniswapV3SwapCallback demo_chain 7 0 (- 3) \<lparr>token0 = 1, token1 = 2, poolFee = 500\<rparr>
      \<lparr>ledger = 8, payer_slot = 5\<rparr> = Inr \<lparr>ledger = 8, payer_slot = 5\<rparr>"
proof -
  have a: "computePoolAddress demo_chain (token0 \<lparr>token0 = 1, token1 = 2, poolFee = 500\<rparr>)
             (token1 \<lparr>token0 = 1, token1 = 2, poolFee = 500\<rparr>)
             (poolFee \<lparr>token0 = 1, token1 = 2, poolFee = 500\<rparr>) = Inr 7"
    by (simp add: computePoolAddress_def demo_chain_def)
  have b: "payer_slot \<lparr>ledger = 8 :: nat, payer_slot = 5\<rparr> \<noteq> 0" by simp
  have c: "\<not> 0 <s (0 :: int256)" by (simp add: word_sless_alt)
  have d: "\<not> 0 <s (- 3 :: int256)" by (simp add: word_sless_alt)
  show ?thesis
    by (rule callback_nothing_owed [OF a b c d])
qed

end
